theory Spec2Isabelle
  imports Main
begin

section \<open>JavaScript strings and the regular expressions of the title helpers\<close>

text \<open>
  A JavaScript string is a sequence of UTF-16 code units. The model uses \<open>string\<close>; a
  \<open>char\<close> stands for the code unit of the same value, so the model covers the strings
  whose code units are below 256. The character classes below are the ones the regular
  expressions of \<open>src/App.jsx\<close> use, restricted to that range:
  \<open>\w\<close> is \<open>[A-Za-z0-9_]\<close>, \<open>\s\<close> is tab, line feed, vertical tab, form feed, carriage
  return, space and the no-break space, and \<open>.\<close> is everything but a line terminator.
\<close>

definition isWordChar :: "char \<Rightarrow> bool" where
  "isWordChar c =
     (let n = (of_char c :: nat)
      in (48 \<le> n \<and> n \<le> 57) \<or> (65 \<le> n \<and> n \<le> 90) \<or> n = 95 \<or> (97 \<le> n \<and> n \<le> 122))"

definition isWhiteSpace :: "char \<Rightarrow> bool" where
  "isWhiteSpace c =
     (let n = (of_char c :: nat) in (9 \<le> n \<and> n \<le> 13) \<or> n = 32 \<or> n = 160)"

definition isLineTerminator :: "char \<Rightarrow> bool" where
  "isLineTerminator c = (let n = (of_char c :: nat) in n = 10 \<or> n = 13)"

definition isUpperAscii :: "char \<Rightarrow> bool" where
  "isUpperAscii c = (let n = (of_char c :: nat) in 65 \<le> n \<and> n \<le> 90)"

definition isLowerAscii :: "char \<Rightarrow> bool" where
  "isLowerAscii c = (let n = (of_char c :: nat) in 97 \<le> n \<and> n \<le> 122)"

text \<open>\<open>String.prototype.toLowerCase\<close> on one code unit below 256: the ASCII capitals and
  the Latin-1 capitals (192 to 222 without the multiplication sign 215) move up by 32.\<close>

definition toLowerCaseChar :: "char \<Rightarrow> char" where
  "toLowerCaseChar c =
     (let n = (of_char c :: nat)
      in if (65 \<le> n \<and> n \<le> 90) \<or> (192 \<le> n \<and> n \<le> 222 \<and> n \<noteq> 215)
         then char_of (n + 32) else c)"

definition toLowerCase :: "string \<Rightarrow> string" where
  "toLowerCase s = map toLowerCaseChar s"

text \<open>\<open>c.toUpperCase()\<close> for a code unit matched by \<open>\w\<close>: only \<open>a\<close> to \<open>z\<close> change.\<close>

definition toUpperCaseChar :: "char \<Rightarrow> char" where
  "toUpperCaseChar c =
     (let n = (of_char c :: nat) in if 97 \<le> n \<and> n \<le> 122 then char_of (n - 32) else c)"

definition startsWith :: "string \<Rightarrow> string \<Rightarrow> bool" where
  "startsWith s p = (take (length p) s = p)"

definition endsWith :: "string \<Rightarrow> string \<Rightarrow> bool" where
  "endsWith s p = (length p \<le> length s \<and> drop (length s - length p) s = p)"

text \<open>\<open>title.replace(/\|.*$/, '')\<close>: without the \<open>m\<close> flag \<open>$\<close> is the end of the input and
  \<open>.\<close> does not cross a line terminator, so the match starts at the first pipe that has no
  line terminator after it and runs to the end.\<close>

fun cutAtPipe :: "string \<Rightarrow> string" where
  "cutAtPipe [] = []"
| "cutAtPipe (c # cs) =
     (if c = CHR ''|'' \<and> list_all (\<lambda>d. \<not> isLineTerminator d) cs then []
      else c # cutAtPipe cs)"

text \<open>\<open>domain.replace(/^www\./, '').replace(/\.(com|in|co|org|net)$/, '')\<close>.\<close>

definition stripWww :: "string \<Rightarrow> string" where
  "stripWww d = (if startsWith d ''www.'' then drop 4 d else d)"

definition stripTld :: "string \<Rightarrow> string" where
  "stripTld d =
     (if endsWith d ''.com'' then take (length d - 4) d
      else if endsWith d ''.in'' then take (length d - 3) d
      else if endsWith d ''.co'' then take (length d - 3) d
      else if endsWith d ''.org'' then take (length d - 4) d
      else if endsWith d ''.net'' then take (length d - 4) d
      else d)"

definition siteLabel :: "string \<Rightarrow> string" where
  "siteLabel domain = stripTld (stripWww domain)"

text \<open>
  \<open>new RegExp(site, 'g')\<close> compiles a string that comes from the page's host name, so the
  pattern is not known statically. The regular-expression engine is a parameter of the
  model: for a pattern it either fails (the \<open>SyntaxError\<close> that the source catches) or
  gives, for every subject string, the marks of the code units covered by the successive
  matches. \<open>title.replace(re, '')\<close> deletes the marked code units.
\<close>

type_synonym regexp_engine = "string \<Rightarrow> (string \<Rightarrow> bool list) option"

fun deleteMarked :: "bool list \<Rightarrow> string \<Rightarrow> string" where
  "deleteMarked ms [] = []"
| "deleteMarked [] (c # cs) = c # cs"
| "deleteMarked (m # ms) (c # cs) =
     (if m then deleteMarked ms cs else c # deleteMarked ms cs)"

definition removeSite :: "regexp_engine \<Rightarrow> string \<Rightarrow> string \<Rightarrow> string" where
  "removeSite RegExp domain title =
     (if domain = [] then title
      else (case RegExp (siteLabel domain) of
              None \<Rightarrow> title
            | Some marks \<Rightarrow> deleteMarked (marks title) title))"

text \<open>
  An engine for the patterns a DNS host name yields: letters, digits, \<open>-\<close> and \<open>_\<close> match
  themselves and \<open>.\<close> matches any code unit but a line terminator. The scan is the one of
  a global replace: leftmost match, then on from the end of the match. A pattern with any
  other character is outside this engine, which then reports failure.
\<close>

fun matchesAt :: "string \<Rightarrow> string \<Rightarrow> bool" where
  "matchesAt [] s = True"
| "matchesAt (q # qs) [] = False"
| "matchesAt (q # qs) (c # cs) =
     ((if q = CHR ''.'' then \<not> isLineTerminator c else q = c) \<and> matchesAt qs cs)"

fun markMatches :: "string \<Rightarrow> nat \<Rightarrow> string \<Rightarrow> bool list" where
  "markMatches p k [] = []"
| "markMatches p k (c # cs) =
     (if 0 < k then True # markMatches p (k - 1) cs
      else if p \<noteq> [] \<and> matchesAt p (c # cs) then True # markMatches p (length p - 1) cs
      else False # markMatches p 0 cs)"

definition hostPatternChar :: "char \<Rightarrow> bool" where
  "hostPatternChar c = (isWordChar c \<or> c = CHR ''-'' \<or> c = CHR ''.'')"

definition hostRegExp :: regexp_engine where
  "hostRegExp p = (if list_all hostPatternChar p then Some (markMatches p 0) else None)"

text \<open>
  \<open>title.replace(new RegExp('\\b' + w + '\\b', 'g'), '')\<close> for a literal word \<open>w\<close>. A
  position is a word boundary when exactly one of its two neighbours is a \<open>\w\<close> code unit
  (the outside of the string counts as not \<open>\w\<close>). The scan carries whether the code unit
  before the position is \<open>\w\<close>, and the number of code units of a match still to skip.
\<close>

definition wordAt :: "string \<Rightarrow> bool \<Rightarrow> string \<Rightarrow> bool" where
  "wordAt w prevWord s =
     (w \<noteq> [] \<and> take (length w) s = w
      \<and> prevWord \<noteq> isWordChar (hd w)
      \<and> isWordChar (last w) \<noteq>
          (case drop (length w) s of [] \<Rightarrow> False | d # _ \<Rightarrow> isWordChar d))"

fun removeWord :: "string \<Rightarrow> bool \<Rightarrow> nat \<Rightarrow> string \<Rightarrow> string" where
  "removeWord w prevWord k [] = []"
| "removeWord w prevWord k (c # cs) =
     (if 0 < k then removeWord w (isWordChar c) (k - 1) cs
      else if wordAt w prevWord (c # cs) then removeWord w (isWordChar c) (length w - 1) cs
      else c # removeWord w (isWordChar c) 0 cs)"

definition boilerplate :: "string list" where
  "boilerplate =
     [''price'', ''images'', ''mileage'', ''specs'', ''features'', ''overview'', ''review'',
      ''reviews'', ''news'', ''blogs'', ''blog'', ''updated'', ''latest'', ''model'', ''india'',
      ''official'', ''on-road'', ''on road'']"

definition removeBoilerplate :: "string \<Rightarrow> string" where
  "removeBoilerplate title = foldl (\<lambda>t w. removeWord w False 0 t) title boilerplate"

text \<open>The separator class of line 59, as the bytes of the source file decode: \<open>-\<close>, \<open>|\<close>,
  \<open>:\<close>, \<open>/\<close> and the code units 226 and 162 (the code unit 8364 that stands between them in
  the source is outside the range of the model).\<close>

definition isSeparator :: "char \<Rightarrow> bool" where
  "isSeparator c =
     (let n = (of_char c :: nat)
      in n = 45 \<or> n = 124 \<or> n = 226 \<or> n = 162 \<or> n = 58 \<or> n = 47)"

definition replaceSeparators :: "string \<Rightarrow> string" where
  "replaceSeparators s = map (\<lambda>c. if isSeparator c then CHR '' '' else c) s"

text \<open>\<open>title.split(/\s+/).filter(Boolean)\<close>: the maximal runs of code units that are not
  white space.\<close>

fun splitWs :: "string \<Rightarrow> string list" where
  "splitWs [] = []"
| "splitWs (c # cs) =
     (if isWhiteSpace c then splitWs cs
      else (case cs of
              [] \<Rightarrow> [[c]]
            | d # _ \<Rightarrow>
                if isWhiteSpace d then [c] # splitWs cs
                else (case splitWs cs of [] \<Rightarrow> [[c]] | t # ts \<Rightarrow> (c # t) # ts)))"

text \<open>The filter with the \<open>seen\<close> set: the first occurrence of every token is kept.\<close>

fun dedupe :: "string list \<Rightarrow> string list \<Rightarrow> string list" where
  "dedupe seen [] = []"
| "dedupe seen (w # ws) =
     (if w \<in> set seen then dedupe seen ws else w # dedupe (w # seen) ws)"

fun joinSpace :: "string list \<Rightarrow> string" where
  "joinSpace [] = []"
| "joinSpace [t] = t"
| "joinSpace (t # u # us) = t @ CHR '' '' # joinSpace (u # us)"

text \<open>\<open>title.replace(/\s+/g, ' ').trim()\<close>.\<close>

fun collapseWs :: "string \<Rightarrow> string" where
  "collapseWs [] = []"
| "collapseWs (c # cs) =
     (if isWhiteSpace c
      then (case cs of
              [] \<Rightarrow> [CHR '' '']
            | d # _ \<Rightarrow> if isWhiteSpace d then collapseWs cs else CHR '' '' # collapseWs cs)
      else c # collapseWs cs)"

definition trim :: "string \<Rightarrow> string" where
  "trim s = rev (dropWhile isWhiteSpace (rev (dropWhile isWhiteSpace s)))"

text \<open>\<open>title.replace(/\b\w/g, c => c.toUpperCase())\<close>: every \<open>\w\<close> code unit whose left
  neighbour is not \<open>\w\<close>.\<close>

fun capitalize :: "bool \<Rightarrow> string \<Rightarrow> string" where
  "capitalize prevWord [] = []"
| "capitalize prevWord (c # cs) =
     (if isWordChar c \<and> \<not> prevWord then toUpperCaseChar c else c)
       # capitalize (isWordChar c) cs"

subsection \<open>normalizeTitle (App.jsx, lines 39 to 78)\<close>

text \<open>\<open>raw\<close> is a string, or \<open>null\<close>/\<open>undefined\<close> (\<open>None\<close>). The result is the title or
  \<open>null\<close> (\<open>None\<close>).\<close>

definition cleanTokens :: "regexp_engine \<Rightarrow> string \<Rightarrow> string \<Rightarrow> string list" where
  "cleanTokens RegExp r domain =
     dedupe []
       (splitWs (replaceSeparators (removeBoilerplate
          (removeSite RegExp domain (cutAtPipe (toLowerCase r))))))"

definition normalizeTitle :: "regexp_engine \<Rightarrow> string option \<Rightarrow> string \<Rightarrow> string option" where
  "normalizeTitle RegExp raw domain =
     (case raw of
        None \<Rightarrow> None
      | Some r \<Rightarrow>
          if r = [] then None
          else (let title = trim (collapseWs (joinSpace (cleanTokens RegExp r domain)))
                in if title = [] then None
                   else (let title = capitalize False title
                         in if length title < 3 then None else Some title)))"

subsection \<open>Predicates used to state the properties of a normalised title\<close>

text \<open>A token is a non-empty run without white space. A string is \<open>lowered\<close> when
  \<open>toLowerCase\<close> leaves it as it is. \<open>capitalized\<close> says that no \<open>\w\<close>
  run of the string begins with one of \<open>a\<close> to \<open>z\<close>: it is what \<open>/\b\w/g\<close> with
  \<open>toUpperCase\<close> achieves, and says nothing of a letter that follows a digit or an underscore,
  or of a letter outside ASCII.\<close>

definition goodToken :: "string \<Rightarrow> bool" where
  "goodToken t = (t \<noteq> [] \<and> list_all (\<lambda>c. \<not> isWhiteSpace c) t)"

definition lowered :: "string \<Rightarrow> bool" where
  "lowered s = list_all (\<lambda>c. toLowerCaseChar c = c) s"

fun capitalized :: "bool \<Rightarrow> string \<Rightarrow> bool" where
  "capitalized prevWord [] = True"
| "capitalized prevWord (c # cs) =
     ((prevWord \<or> \<not> isLowerAscii c) \<and> capitalized (isWordChar c) cs)"

text \<open>
  "The first letter of every word is capitalized", read on the white-space-delimited
  tokens: the first letter of each token is a capital. The letters below 256 are the ASCII
  letters and the Latin-1 letters (170, 181, 186, 192 to 255 without 215 and 247); the
  capitals are \<open>A\<close> to \<open>Z\<close> and 192 to 222 without 215.
\<close>

definition isLetter :: "char \<Rightarrow> bool" where
  "isLetter c =
     (let n = (of_char c :: nat)
      in (65 \<le> n \<and> n \<le> 90) \<or> (97 \<le> n \<and> n \<le> 122) \<or> n = 170 \<or> n = 181 \<or> n = 186
         \<or> (192 \<le> n \<and> n \<noteq> 215 \<and> n \<noteq> 247))"

definition isCapitalLetter :: "char \<Rightarrow> bool" where
  "isCapitalLetter c =
     (let n = (of_char c :: nat)
      in (65 \<le> n \<and> n \<le> 90) \<or> (192 \<le> n \<and> n \<le> 222 \<and> n \<noteq> 215))"

definition firstLetterCapital :: "string \<Rightarrow> bool" where
  "firstLetterCapital t =
     (case dropWhile (\<lambda>c. \<not> isLetter c) t of [] \<Rightarrow> True | c # cs \<Rightarrow> isCapitalLetter c)"

definition wordsCapitalized :: "string \<Rightarrow> bool" where
  "wordsCapitalized s = list_all firstLetterCapital (splitWs s)"

subsection \<open>inferTitleFromUrl (App.jsx, lines 80 to 101)\<close>

text \<open>\<open>new URL(url)\<close> is the browser's parser, a parameter of the model: it throws
  (\<open>None\<close>) or gives the parts the source reads.\<close>

record url_parts =
  hostname :: string
  pathname :: string

type_synonym url_parser = "string \<Rightarrow> url_parts option"

fun splitOn :: "char \<Rightarrow> string \<Rightarrow> string list" where
  "splitOn sep [] = [[]]"
| "splitOn sep (c # cs) =
     (case splitOn sep cs of
        [] \<Rightarrow> (if c = sep then [[], []] else [[c]])
      | p # ps \<Rightarrow> (if c = sep then [] # p # ps else (c # p) # ps))"

definition ignoredSegments :: "string list" where
  "ignoredSegments =
     [''blogs'', ''blog'', ''news'', ''reviews'', ''colors'', ''specs'', ''gallery'', ''images'',
      ''price'', ''posts'', ''category'', ''categories'', ''tag'', ''tags'']"

definition hyphensToSpaces :: "string \<Rightarrow> string" where
  "hyphensToSpaces s = map (\<lambda>c. if c = CHR ''-'' \<or> c = CHR ''_'' then CHR '' '' else c) s"

definition inferTitleFromUrl :: "regexp_engine \<Rightarrow> url_parser \<Rightarrow> string \<Rightarrow> string option" where
  "inferTitleFromUrl RegExp URL url =
     (case URL url of
        None \<Rightarrow> None
      | Some u \<Rightarrow>
          (let parts = filter (\<lambda>p. toLowerCase p \<notin> set ignoredSegments)
                         (filter (\<lambda>p. p \<noteq> []) (splitOn (CHR ''/'') (pathname u)))
           in if 2 \<le> length parts
              then normalizeTitle RegExp
                     (Some (hyphensToSpaces (last (butlast parts) @ '' '' @ last parts)))
                     (hostname u)
              else if length parts = 1
              then normalizeTitle RegExp (Some (hyphensToSpaces (hd parts))) (hostname u)
              else None))"

section \<open>The image validator: loadImageWithTimeout (App.jsx, lines 120 to 134)\<close>

text \<open>
  The promise is settled by whichever callback runs first: the timer, \<open>img.onload\<close> or
  \<open>img.onerror\<close>. The model is the state the three closures share (\<open>settled\<close>, whether
  the timer is still armed, and the promise) and one step per callback the browser runs.
  The executor takes \<open>resolve\<close> only, so nothing in it can reject the promise.
\<close>

datatype promise = Unsettled | Resolved bool | RejectedPromise

datatype image_event = TimerFired | OnLoad nat nat | OnError

record loader =
  settled :: bool
  timerArmed :: bool
  outcome :: promise

definition resolve :: "bool \<Rightarrow> loader \<Rightarrow> loader" where
  "resolve v st = (case outcome st of Unsettled \<Rightarrow> st\<lparr>outcome := Resolved v\<rparr> | _ \<Rightarrow> st)"

text \<open>The state after the executor has run: the timer armed, the handlers installed.\<close>

definition loadImageStart :: loader where
  "loadImageStart = \<lparr>settled = False, timerArmed = True, outcome = Unsettled\<rparr>"

fun loadImageStep :: "nat \<Rightarrow> nat \<Rightarrow> loader \<Rightarrow> image_event \<Rightarrow> loader" where
  "loadImageStep minWidth minHeight st TimerFired =
     (if timerArmed st
      then (if \<not> settled st then resolve False (st\<lparr>settled := True, timerArmed := False\<rparr>)
            else st\<lparr>timerArmed := False\<rparr>)
      else st)"
| "loadImageStep minWidth minHeight st (OnLoad w h) =
     (if \<not> settled st
      then (let ok = (minWidth \<le> w \<and> minHeight \<le> h)
            in resolve ok (st\<lparr>settled := True, timerArmed := False\<rparr>))
      else st)"
| "loadImageStep minWidth minHeight st OnError =
     (if \<not> settled st then resolve False (st\<lparr>settled := True, timerArmed := False\<rparr>)
      else st)"

text \<open>The promise after the browser has run the given callbacks, in that order.\<close>

definition runCallbacks :: "nat \<Rightarrow> nat \<Rightarrow> image_event list \<Rightarrow> promise" where
  "runCallbacks minWidth minHeight events =
     outcome (foldl (loadImageStep minWidth minHeight) loadImageStart events)"

text \<open>
  What becomes of the image at a URL is the network's matter: it loads at some time with
  some natural dimensions, fails at some time, or does neither. The timer fires at
  \<open>timeout\<close>; an image event strictly before that comes first, and after it the timer is
  cleared. With the callbacks in that order, \<open>loadImageWithTimeout\<close> is:
\<close>

datatype image_fate = LoadsAt nat nat nat | FailsAt nat | NeverSettles

fun arrival :: "nat \<Rightarrow> image_fate \<Rightarrow> image_event list" where
  "arrival timeout (LoadsAt t w h) =
     (if t < timeout then [OnLoad w h] else [TimerFired, OnLoad w h])"
| "arrival timeout (FailsAt t) =
     (if t < timeout then [OnError] else [TimerFired, OnError])"
| "arrival timeout NeverSettles = [TimerFired]"

definition loadImageWithTimeout ::
  "(string \<Rightarrow> image_fate) \<Rightarrow> string \<Rightarrow> nat \<Rightarrow> nat \<Rightarrow> nat \<Rightarrow> promise" where
  "loadImageWithTimeout network src timeout minWidth minHeight =
     runCallbacks minWidth minHeight (arrival timeout (network src))"

section \<open>Title candidates\<close>

text \<open>
  What a page offers as title candidates; \<open>None\<close> is \<open>undefined\<close> or \<open>null\<close> (for the
  proxy server: the regular expression of that tag does not match). \<open>jsOr\<close> is
  JavaScript's \<open>||\<close> on such values: the left operand when it is a non-empty string, the
  right operand otherwise.
\<close>

record page_tags =
  ogTitle :: "string option"
  twitterTitle :: "string option"
  titleText :: "string option"
  metaDescription :: "string option"
  ogDescription :: "string option"

definition truthy :: "string option \<Rightarrow> bool" where
  "truthy v = (case v of None \<Rightarrow> False | Some s \<Rightarrow> s \<noteq> [])"

definition jsOr :: "string option \<Rightarrow> string option \<Rightarrow> string option" where
  "jsOr a b = (if truthy a then a else b)"

text \<open>server/metadata-proxy.js (lines 20 to 22 and 65):
  \<open>(ogTitleMatch && ogTitleMatch[1]) || (twitterTitleMatch && twitterTitleMatch[1])
  || (titleMatch && titleMatch[1]) || null\<close>.\<close>

definition titleProxyServer :: "page_tags \<Rightarrow> string option" where
  "titleProxyServer doc =
     jsOr (jsOr (jsOr (ogTitle doc) (twitterTitle doc)) (titleText doc)) None"

text \<open>The order the specification gives (section 4.4): \<open>og:title\<close>, then
  \<open>twitter:title\<close>, then the \<open>title\<close> element, then the meta description.\<close>

definition titleBySpecOrder :: "page_tags \<Rightarrow> string option" where
  "titleBySpecOrder doc =
     jsOr (jsOr (jsOr (ogTitle doc) (twitterTitle doc)) (titleText doc)) (metaDescription doc)"

text \<open>The first non-empty candidate of a list, or the last candidate when none is.\<close>

fun firstTruthy :: "string option list \<Rightarrow> string option" where
  "firstTruthy [] = None"
| "firstTruthy [a] = a"
| "firstTruthy (a # b # bs) = (if truthy a then a else firstTruthy (b # bs))"


section \<open>Items and the enrichment orchestrator\<close>

subsection \<open>Items, partial updates and updateItem (App.jsx, lines 652 to 669 and 685 to 690)\<close>

datatype meta_status = Pending | Done | Failed

text \<open>An item as \<open>addItem\<close> builds it. The source's \<open>id\<close>, \<open>image\<close> and \<open>notes\<close> are \<open>itemId\<close>,
  \<open>itemImage\<close> and \<open>itemNotes\<close> here. The three flags that the object literal of \<open>addItem\<close> leaves out
  (\<open>userEditedTitle\<close>, \<open>userEditedImage\<close>, \<open>enrichFlash\<close>) are \<open>undefined\<close> until written,
  which every test of the source reads as false.\<close>

record item =
  itemId :: string
  bucketId :: string
  url :: string
  title :: string
  domain :: string
  itemImage :: "string option"
  itemNotes :: string
  price :: string
  status :: string
  isArchived :: bool
  visitCount :: nat
  metaStatus :: meta_status
  metaAttempts :: nat
  site :: string
  createdAt :: int
  userEditedTitle :: bool
  userEditedImage :: bool
  enrichFlash :: bool

text \<open>The object passed to \<open>updateItem\<close>: a key that is absent is \<open>None\<close>.\<close>

record item_update =
  newTitle :: "string option"
  newImage :: "string option"
  newSite :: "string option"
  newMetaStatus :: "meta_status option"
  newMetaAttempts :: "nat option"
  newEnrichFlash :: "bool option"
  newUserEditedTitle :: "bool option"

definition emptyUpdate :: item_update where
  "emptyUpdate =
     \<lparr>newTitle = None, newImage = None, newSite = None, newMetaStatus = None,
      newMetaAttempts = None, newEnrichFlash = None, newUserEditedTitle = None\<rparr>"

text \<open>\<open>{ ...item, ...updates }\<close>.\<close>

definition applyUpdate :: "item_update \<Rightarrow> item \<Rightarrow> item" where
  "applyUpdate u it =
     it\<lparr>title := (case newTitle u of None \<Rightarrow> title it | Some t \<Rightarrow> t),
        itemImage := (case newImage u of None \<Rightarrow> itemImage it | Some s \<Rightarrow> Some s),
        site := (case newSite u of None \<Rightarrow> site it | Some s \<Rightarrow> s),
        metaStatus := (case newMetaStatus u of None \<Rightarrow> metaStatus it | Some s \<Rightarrow> s),
        metaAttempts := (case newMetaAttempts u of None \<Rightarrow> metaAttempts it | Some n \<Rightarrow> n),
        enrichFlash := (case newEnrichFlash u of None \<Rightarrow> enrichFlash it | Some b \<Rightarrow> b),
        userEditedTitle :=
          (case newUserEditedTitle u of None \<Rightarrow> userEditedTitle it | Some b \<Rightarrow> b)\<rparr>"

text \<open>\<open>setData(prev => ({ ...prev, items: prev.items.map(item => item.id === id ?
  { ...item, ...updates } : item) }))\<close>, as a function of \<open>prev.items\<close>.\<close>

definition updateItem :: "string \<Rightarrow> item_update \<Rightarrow> item list \<Rightarrow> item list" where
  "updateItem i updates prevItems =
     map (\<lambda>it. if itemId it = i then applyUpdate updates it else it) prevItems"

subsection \<open>Names and scopes\<close>

text \<open>
  A free name of a function is looked up in the scopes that enclose the function; reading
  a name that none of them declares, and that is no property of the global object, throws
  a \<open>ReferenceError\<close>. \<open>moduleScope\<close> lists the names that \<open>App.jsx\<close> declares at module
  level: the imports of lines 1 and 3 and the \<open>const\<close>s and the function of lines 7 to 445.
  \<open>data\<close> (line 447), \<open>updateItem\<close> (line 685) and \<open>METADATA_PROXY\<close> (line 596) are
  declared inside \<open>App\<close> only. \<open>globalNames\<close> lists the properties of the global object
  that the module reads; the source assigns none.
\<close>

datatype js_error = ReferenceError string

definition moduleScope :: "string list" where
  "moduleScope =
     [''React'', ''useState'', ''useEffect'', ''useRef'',
      ''Plus'', ''ArrowLeft'', ''Trash2'', ''ExternalLink'', ''X'', ''ImageIcon'', ''LinkIcon'',
      ''CheckCircle2'', ''Clipboard'', ''LayoutGrid'', ''List'', ''Camera'', ''Archive'',
      ''RotateCcw'', ''PenLine'', ''FileDown'', ''MoreVertical'',
      ''generateId'', ''getDomain'', ''getFavicon'', ''generateGradient'', ''normalizeTitle'',
      ''inferTitleFromUrl'', ''getInitial'', ''tryFetchHtml'', ''loadImageWithTimeout'',
      ''fetchJsonWithTimeout'', ''fetchPageMetadata'', ''extractBestTitle'', ''fetchTitleQuick'',
      ''fetchImageQuick'', ''enrichUrlMetadata'', ''Button'', ''Input'', ''App'']"

definition globalNames :: "string list" where
  "globalNames =
     [''window'', ''document'', ''navigator'', ''console'', ''localStorage'', ''JSON'', ''URL'',
      ''Math'', ''Date'', ''String'', ''Array'', ''Set'', ''RegExp'', ''Error'', ''Promise'',
      ''Image'', ''DOMParser'', ''AbortController'', ''Blob'', ''FileReader'', ''fetch'',
      ''setTimeout'', ''clearTimeout'', ''encodeURIComponent'']"

definition readName :: "string list \<Rightarrow> string \<Rightarrow> js_error + unit" where
  "readName scope name = (if name \<in> set scope then Inr () else Inl (ReferenceError name))"

subsection \<open>fetchPageMetadata (App.jsx, lines 150 to 247)\<close>

text \<open>What \<open>fetchPageMetadata\<close> resolves to when it is not \<open>null\<close>.\<close>

record page_meta =
  metaTitle :: "string option"
  metaImage :: "string option"

text \<open>
  The first statement of the outer \<open>try\<close> (line 153) reads \<open>METADATA_PROXY\<close>, and so does
  the first statement of the \<open>try\<close> inside the outer \<open>catch\<close> (line 202), whose own
  \<open>catch\<close> returns \<open>null\<close> (line 244). \<open>direct\<close> and \<open>fallback\<close> stand for what the code
  after each of the two reads would resolve to.
\<close>

definition fetchPageMetadata :: "page_meta option \<Rightarrow> page_meta option \<Rightarrow> string \<Rightarrow> page_meta option" where
  "fetchPageMetadata direct fallback u =
     (case readName ([''url''] @ moduleScope @ globalNames) ''METADATA_PROXY'' of
        Inr ok \<Rightarrow> direct
      | Inl err \<Rightarrow>
          (case readName ([''err'', ''url''] @ moduleScope @ globalNames) ''METADATA_PROXY'' of
             Inr ok \<Rightarrow> fallback
           | Inl err2 \<Rightarrow> None))"

subsection \<open>enrichUrlMetadata (App.jsx, lines 349 to 416)\<close>

text \<open>
  The \<open>try\<close> block parses the cache (lines 351 and 352; a failure there leads to the
  same \<open>catch\<close> clause) and then reads \<open>data\<close> (line 355). The \<open>catch\<close> clause (lines 411 to 415) begins by reading \<open>attempts\<close>, a \<open>const\<close> of
  the \<open>try\<close> block. An error thrown in the \<open>catch\<close> clause rejects the promise of the
  \<open>async\<close> function. The names in scope at the two reads are those of the block, the
  parameters, the module and the global object. \<open>rest\<close> stands for what lines 355 to 410
  do once \<open>data\<close> has been read, and \<open>handler\<close> for what lines 412 to 414 do once
  \<open>attempts\<close> has been read: either an error or the effects performed (the calls of
  \<open>updateItem\<close> and \<open>fetchPageMetadata\<close>, the cache write, the timers), in order.
  \<open>cache\<close> holds the own properties of the parsed \<open>meta_cache_v1\<close>.
\<close>

record cache_entry =
  cachedTitle :: "string option"
  cachedImage :: "string option"
  cachedSite :: string

datatype timer_action = ClearFlash string | RetryEnrich string string

datatype effect =
    FetchPageMetadata string
  | CacheWrite string cache_entry
  | UpdateItem string item_update
  | SetTimeout timer_action nat

datatype settlement = Fulfilled | Rejected js_error

definition enrichParams :: "string list" where
  "enrichParams = [''id'', ''url'']"

definition enrichTryNames :: "string list" where
  "enrichTryNames = [''cacheKey'', ''cache'', ''item'', ''attempts'', ''result'']"

definition enrichCatchNames :: "string list" where
  "enrichCatchNames = [''e'', ''nextAttempts'']"

definition enrichTryBlock ::
  "(string \<rightharpoonup> cache_entry) \<Rightarrow> (js_error + effect list) \<Rightarrow> js_error + effect list" where
  "enrichTryBlock cache rest =
     (case readName (enrichTryNames @ enrichParams @ moduleScope @ globalNames) ''data'' of
        Inl err \<Rightarrow> Inl err
      | Inr ok \<Rightarrow> rest)"

definition enrichCatchClause :: "(js_error + effect list) \<Rightarrow> js_error + effect list" where
  "enrichCatchClause handler =
     (case readName (enrichCatchNames @ enrichParams @ moduleScope @ globalNames) ''attempts'' of
        Inl err \<Rightarrow> Inl err
      | Inr ok \<Rightarrow> handler)"

definition enrichUrlMetadata ::
  "(string \<rightharpoonup> cache_entry) \<Rightarrow> (js_error + effect list) \<Rightarrow> (js_error + effect list)
     \<Rightarrow> string \<Rightarrow> string \<Rightarrow> effect list \<times> settlement" where
  "enrichUrlMetadata cache rest handler i u =
     (case enrichTryBlock cache rest of
        Inr effects \<Rightarrow> (effects, Fulfilled)
      | Inl err \<Rightarrow>
          (case enrichCatchClause handler of
             Inr effects \<Rightarrow> (effects, Fulfilled)
           | Inl err2 \<Rightarrow> ([], Rejected err2)))"

text \<open>\<open>hostname.replace('www.', '')\<close> (line 12): a string pattern, so the first
  occurrence anywhere.\<close>

fun removeFirstWww :: "string \<Rightarrow> string" where
  "removeFirstWww [] = []"
| "removeFirstWww (c # cs) =
     (if take 4 (c # cs) = ''www.'' then drop 4 (c # cs) else c # removeFirstWww cs)"

text \<open>The effects on the item collection: every \<open>updateItem\<close> call, in order.\<close>

fun applyEffects :: "effect list \<Rightarrow> item list \<Rightarrow> item list" where
  "applyEffects [] prevItems = prevItems"
| "applyEffects (UpdateItem i upd # es) prevItems = applyEffects es (updateItem i upd prevItems)"
| "applyEffects (e # es) prevItems = applyEffects es prevItems"

text \<open>The delay of the retry timer among the effects, if one was armed.\<close>

fun scheduledRetry :: "effect list \<Rightarrow> nat option" where
  "scheduledRetry [] = None"
| "scheduledRetry (SetTimeout (RetryEnrich i u) delay # es) = Some delay"
| "scheduledRetry (e # es) = scheduledRetry es"

subsection \<open>addItem (App.jsx, lines 622 to 683)\<close>

text \<open>
  \<open>data\<close> is the state value of the render that created this \<open>addItem\<close> closure; the
  insertion goes through \<open>setData(prev => ...)\<close> and reaches \<open>data\<close> only with the next
  render. The model therefore takes \<open>data.items\<close> as an argument and returns the item to
  insert, which \<open>commitAdd\<close> puts at the head of \<open>prev.items\<close>. \<open>pendingUrls\<close> is
  \<open>pendingUrlsRef.current\<close>, \<open>now\<close> is \<open>Date.now()\<close> and \<open>newId\<close> is the value of
  \<open>generateId()\<close>.
\<close>

definition getDomain :: "url_parser \<Rightarrow> string \<Rightarrow> string" where
  "getDomain URL u =
     (case URL u of
        Some parsed \<Rightarrow> removeFirstWww (hostname parsed)
      | None \<Rightarrow> (if u \<noteq> [] then ''link'' else ''image''))"

text \<open>\<open>content.match(/\.(jpeg|jpg|gif|png|webp)$/i)\<close>.\<close>

definition hasImageExtension :: "string \<Rightarrow> bool" where
  "hasImageExtension content =
     (let c = toLowerCase content
      in endsWith c ''.jpeg'' \<or> endsWith c ''.jpg'' \<or> endsWith c ''.gif''
         \<or> endsWith c ''.png'' \<or> endsWith c ''.webp'')"

record add_outcome =
  returnedId :: string
  inserted :: "item option"
  pendingAfter :: "string set"
  enrichmentStarted :: bool

definition addItem ::
  "regexp_engine \<Rightarrow> url_parser \<Rightarrow> item list \<Rightarrow> string set \<Rightarrow> int \<Rightarrow> string
     \<Rightarrow> string \<Rightarrow> string \<Rightarrow> string \<Rightarrow> string option \<Rightarrow> string option \<Rightarrow> add_outcome" where
  "addItem RegExp URL data pendingUrls now newId content targetBucketId type initialTitle initialImage =
     (let isUrl = (type = ''url'' \<or> startsWith content ''http'');
          siteName = (if isUrl then getDomain URL content else [])
      in case (if isUrl \<and> content \<in> pendingUrls
               then find (\<lambda>it. url it = content \<and> bucketId it = targetBucketId) data
               else None) of
           Some already \<Rightarrow>
             \<lparr>returnedId = itemId already, inserted = None, pendingAfter = pendingUrls,
              enrichmentStarted = False\<rparr>
         | None \<Rightarrow>
             (case (if isUrl
                    then (case find (\<lambda>it. url it = content \<and> bucketId it = targetBucketId) data of
                            Some existing \<Rightarrow>
                              if now - createdAt existing < 10000 \<or> metaStatus existing = Pending
                              then Some existing else None
                          | None \<Rightarrow> None)
                    else None) of
                Some existing \<Rightarrow>
                  \<lparr>returnedId = itemId existing, inserted = None, pendingAfter = pendingUrls,
                   enrichmentStarted = False\<rparr>
              | None \<Rightarrow>
                  (let pending' = (if isUrl then insert content pendingUrls else pendingUrls);
                       inferredTitle =
                         (if isUrl then jsOr initialTitle (inferTitleFromUrl RegExp URL content)
                          else None);
                       normalizedInferred =
                         (if isUrl
                          then normalizeTitle RegExp (jsOr inferredTitle (Some [])) siteName
                          else None);
                       initialTitleToUse =
                         (if isUrl
                          then (case jsOr normalizedInferred (Some ''Untitled link'') of
                                  Some t \<Rightarrow> t | None \<Rightarrow> ''Untitled link'')
                          else ''Pasted Image'');
                       initialMetaDone = (isUrl \<and> (truthy initialTitle \<or> truthy initialImage));
                       newItem =
                         \<lparr>itemId = newId,
                          bucketId = targetBucketId,
                          url = (if isUrl then content else []),
                          title = initialTitleToUse,
                          domain = siteName,
                          itemImage =
                            (if type = ''image'' then Some content
                             else jsOr initialImage
                                    (if hasImageExtension content then Some content else None)),
                          itemNotes = [],
                          price = [],
                          status = ''saved'',
                          isArchived = False,
                          visitCount = 0,
                          metaStatus =
                            (if initialMetaDone then Done else (if isUrl then Pending else Done)),
                          metaAttempts = 0,
                          site = siteName,
                          createdAt = now,
                          userEditedTitle = False,
                          userEditedImage = False,
                          enrichFlash = False\<rparr>
                   in \<lparr>returnedId = newId, inserted = Some newItem, pendingAfter = pending',
                       enrichmentStarted = isUrl\<rparr>)))"

text \<open>\<open>setData(prev => ({ ...prev, items: [newItem, ...prev.items], ... }))\<close>, as a
  function of \<open>prev.items\<close>.\<close>

definition commitAdd :: "add_outcome \<Rightarrow> item list \<Rightarrow> item list" where
  "commitAdd r prevItems = (case inserted r of None \<Rightarrow> prevItems | Some it \<Rightarrow> it # prevItems)"

text \<open>The \<open>finally\<close> handler of line 678: the URL leaves the pending-set when the
  enrichment promise settles.\<close>

definition enrichmentSettled :: "string \<Rightarrow> string set \<Rightarrow> string set" where
  "enrichmentSettled content pendingUrls = pendingUrls - {content}"


subsection \<open>Concrete inputs\<close>

text \<open>A page, its parsed URL, a cache that holds it, and items that refer to it.\<close>

definition hondaUrl :: string where
  "hondaUrl = ''https://example.com/cars/honda/city''"

definition parseExample :: url_parser where
  "parseExample u =
     (if u = hondaUrl then Some \<lparr>hostname = ''example.com'', pathname = ''/cars/honda/city''\<rparr>
      else None)"

definition hondaEntry :: cache_entry where
  "hondaEntry =
     \<lparr>cachedTitle = Some ''Honda City Price'',
      cachedImage = Some ''https://example.com/city.png'',
      cachedSite = ''example.com''\<rparr>"

definition hondaCache :: "string \<rightharpoonup> cache_entry" where
  "hondaCache = (\<lambda>k. if k = hondaUrl then Some hondaEntry else None)"

definition noCache :: "string \<rightharpoonup> cache_entry" where
  "noCache = (\<lambda>k. None)"

text \<open>The item \<open>addItem\<close> creates for the page, with the favicon as its first image.\<close>

definition hondaItem :: item where
  "hondaItem =
     \<lparr>itemId = ''id1'', bucketId = ''b1'', url = hondaUrl, title = ''Honda City'',
      domain = ''example.com'',
      itemImage = Some ''https://www.google.com/s2/favicons?domain=example.com&sz=64'',
      itemNotes = [], price = [], status = ''saved'', isArchived = False, visitCount = 0,
      metaStatus = Pending, metaAttempts = 0, site = ''example.com'', createdAt = 1000,
      userEditedTitle = False, userEditedImage = False, enrichFlash = False\<rparr>"

text \<open>The same page saved a moment ago in bucket \<open>b1\<close>, still pending.\<close>

definition otherBucketItem :: item where
  "otherBucketItem = hondaItem\<lparr>createdAt := 9000\<rparr>"

text \<open>Whether an effect is a call of \<open>fetchPageMetadata\<close>.\<close>

definition isFetch :: "effect \<Rightarrow> bool" where
  "isFetch e = (case e of FetchPageMetadata u \<Rightarrow> True | _ \<Rightarrow> False)"

section \<open>Properties of the title normaliser\<close>

subsection \<open>Code units\<close>

lemma of_char_lt_256: "(of_char c :: nat) < 256"
  by (cases c) (simp add: of_char_def)

lemma isWordChar_toUpper [simp]: "isWordChar (toUpperCaseChar c) = isWordChar c"
  by (auto simp: isWordChar_def toUpperCaseChar_def Let_def)

lemma isWhiteSpace_toUpper [simp]: "isWhiteSpace (toUpperCaseChar c) = isWhiteSpace c"
  by (auto simp: isWhiteSpace_def toUpperCaseChar_def Let_def)

lemma not_lower_toUpper [simp]: "\<not> isLowerAscii (toUpperCaseChar c)"
  by (auto simp: isLowerAscii_def toUpperCaseChar_def Let_def)

lemma lower_is_word: "isLowerAscii c \<Longrightarrow> isWordChar c"
  by (auto simp: isLowerAscii_def isWordChar_def Let_def)

lemma white_not_word: "isWhiteSpace c \<Longrightarrow> \<not> isWordChar c"
  by (auto simp: isWhiteSpace_def isWordChar_def Let_def)

lemma space_white [simp]: "isWhiteSpace (CHR '' '')"
  by (simp add: isWhiteSpace_def)

lemma space_not_word [simp]: "\<not> isWordChar (CHR '' '')"
  by (simp add: isWordChar_def)

lemma toLower_space [simp]: "toLowerCaseChar (CHR '' '') = CHR '' ''"
  by (simp add: toLowerCaseChar_def)

lemma toLower_toUpper: "toLowerCaseChar c = c \<Longrightarrow> toLowerCaseChar (toUpperCaseChar c) = c"
  by (auto simp: toLowerCaseChar_def toUpperCaseChar_def Let_def split: if_splits)

lemma toLower_idem [simp]: "toLowerCaseChar (toLowerCaseChar c) = toLowerCaseChar c"
  using of_char_lt_256 [of c]
  by (auto simp: toLowerCaseChar_def Let_def)


subsection \<open>tokens\<close>

lemma splitWs_white: "isWhiteSpace c \<Longrightarrow> splitWs (c # cs) = splitWs cs"
  by simp

lemma splitWs_nonwhite:
  "\<not> isWhiteSpace c \<Longrightarrow>
   splitWs (c # cs) =
     (c # takeWhile (\<lambda>x. \<not> isWhiteSpace x) cs) # splitWs (dropWhile (\<lambda>x. \<not> isWhiteSpace x) cs)"
proof (induction cs arbitrary: c)
  case Nil
  then show ?case by simp
next
  case (Cons d ds)
  show ?case
  proof (cases "isWhiteSpace d")
    case True
    with Cons.prems show ?thesis by simp
  next
    case False
    from Cons.IH [OF False] Cons.prems False show ?thesis by simp
  qed
qed

lemma splitWs_good: "t \<in> set (splitWs s) \<Longrightarrow> goodToken t"
proof (induction "length s" arbitrary: s rule: less_induct)
  case less
  show ?case
  proof (cases s)
    case Nil
    with less.prems show ?thesis by simp
  next
    case (Cons c cs)
    show ?thesis
    proof (cases "isWhiteSpace c")
      case True
      with less.prems Cons have "t \<in> set (splitWs cs)" by simp
      with less.hyps [of cs] Cons show ?thesis by simp
    next
      case False
      have len: "length (dropWhile (\<lambda>x. \<not> isWhiteSpace x) cs) < length s"
        using Cons by (simp add: length_dropWhile_le le_imp_less_Suc)
      from less.prems Cons False
      consider "t = c # takeWhile (\<lambda>x. \<not> isWhiteSpace x) cs"
        | "t \<in> set (splitWs (dropWhile (\<lambda>x. \<not> isWhiteSpace x) cs))"
        by (auto simp: splitWs_nonwhite simp del: splitWs.simps(2))
      then show ?thesis
      proof cases
        case 1
        with False show ?thesis
          by (auto simp: goodToken_def list_all_iff dest: set_takeWhileD)
      next
        case 2
        with less.hyps [OF len] show ?thesis by simp
      qed
    qed
  qed
qed

lemma splitWs_chars: "t \<in> set (splitWs s) \<Longrightarrow> set t \<subseteq> set s"
proof (induction "length s" arbitrary: s rule: less_induct)
  case less
  show ?case
  proof (cases s)
    case Nil
    with less.prems show ?thesis by simp
  next
    case (Cons c cs)
    show ?thesis
    proof (cases "isWhiteSpace c")
      case True
      with less.prems Cons have "t \<in> set (splitWs cs)" by simp
      with less.hyps [of cs] Cons show ?thesis by auto
    next
      case False
      have len: "length (dropWhile (\<lambda>x. \<not> isWhiteSpace x) cs) < length s"
        using Cons by (simp add: length_dropWhile_le le_imp_less_Suc)
      from less.prems Cons False
      consider "t = c # takeWhile (\<lambda>x. \<not> isWhiteSpace x) cs"
        | "t \<in> set (splitWs (dropWhile (\<lambda>x. \<not> isWhiteSpace x) cs))"
        by (auto simp: splitWs_nonwhite simp del: splitWs.simps(2))
      then show ?thesis
      proof cases
        case 1
        with Cons show ?thesis
          by (auto dest: set_takeWhileD)
      next
        case 2
        from less.hyps [OF len 2] have "set t \<subseteq> set (dropWhile (\<lambda>x. \<not> isWhiteSpace x) cs)" .
        with Cons show ?thesis
          by (auto dest: set_dropWhileD)
      qed
    qed
  qed
qed

lemma takeWhile_good:
  "list_all (\<lambda>c. \<not> isWhiteSpace c) t \<Longrightarrow>
   takeWhile (\<lambda>x. \<not> isWhiteSpace x) (t @ CHR '' '' # s) = t"
  by (induction t) simp_all

lemma dropWhile_good:
  "list_all (\<lambda>c. \<not> isWhiteSpace c) t \<Longrightarrow>
   dropWhile (\<lambda>x. \<not> isWhiteSpace x) (t @ CHR '' '' # s) = CHR '' '' # s"
  by (induction t) simp_all

lemma splitWs_token_app: "goodToken t \<Longrightarrow> splitWs (t @ CHR '' '' # s) = t # splitWs s"
proof (cases t)
  case Nil
  assume "goodToken t"
  with Nil show ?thesis by (simp add: goodToken_def)
next
  case (Cons c cs)
  assume "goodToken t"
  with Cons have c: "\<not> isWhiteSpace c" and cs: "list_all (\<lambda>c. \<not> isWhiteSpace c) cs"
    by (simp_all add: goodToken_def)
  have "splitWs ((c # cs) @ CHR '' '' # s) = splitWs (c # (cs @ CHR '' '' # s))" by simp
  also have "\<dots> = (c # cs) # splitWs (CHR '' '' # s)"
    by (simp only: splitWs_nonwhite [OF c] takeWhile_good [OF cs] dropWhile_good [OF cs])
  finally show ?thesis using Cons by simp
qed

lemma splitWs_token: "goodToken t \<Longrightarrow> splitWs t = [t]"
proof (cases t)
  case Nil
  assume "goodToken t"
  with Nil show ?thesis by (simp add: goodToken_def)
next
  case (Cons c cs)
  assume "goodToken t"
  with Cons have c: "\<not> isWhiteSpace c" and cs: "list_all (\<lambda>c. \<not> isWhiteSpace c) cs"
    by (simp_all add: goodToken_def)
  from cs have tw: "takeWhile (\<lambda>x. \<not> isWhiteSpace x) cs = cs"
    and dw: "dropWhile (\<lambda>x. \<not> isWhiteSpace x) cs = []"
    by (simp_all add: list_all_iff)
  show ?thesis unfolding Cons splitWs_nonwhite [OF c] tw dw by simp
qed

lemma splitWs_joinSpace: "list_all goodToken ts \<Longrightarrow> splitWs (joinSpace ts) = ts"
  by (induction ts rule: joinSpace.induct) (simp_all add: splitWs_token splitWs_token_app del: splitWs.simps(2))

lemma dedupe_distinct: "distinct (dedupe seen ws) \<and> set (dedupe seen ws) = set ws - set seen"
  by (induction seen ws rule: dedupe.induct) auto

lemma dedupe_id: "distinct ws \<Longrightarrow> set ws \<inter> set seen = {} \<Longrightarrow> dedupe seen ws = ws"
  by (induction seen ws rule: dedupe.induct) auto


subsection \<open>joined tokens\<close>

lemma joinSpace_ends:
  "list_all goodToken (u # us) \<Longrightarrow>
   joinSpace (u # us) \<noteq> [] \<and> \<not> isWhiteSpace (hd (joinSpace (u # us)))
     \<and> \<not> isWhiteSpace (last (joinSpace (u # us)))"
proof (induction us arbitrary: u)
  case Nil
  then show ?case by (cases u) (auto simp: goodToken_def list_all_iff)
next
  case (Cons v vs)
  from Cons.prems have u: "goodToken u" and rest: "list_all goodToken (v # vs)" by simp_all
  from Cons.IH [OF rest] u show ?case
    by (cases u) (auto simp: goodToken_def)
qed

lemma collapseWs_nonwhite:
  "list_all (\<lambda>c. \<not> isWhiteSpace c) t \<Longrightarrow> collapseWs (t @ s) = t @ collapseWs s"
  by (induction t) simp_all

lemma collapseWs_joinSpace: "list_all goodToken ts \<Longrightarrow> collapseWs (joinSpace ts) = joinSpace ts"
proof (induction ts rule: joinSpace.induct)
  case 1
  then show ?case by simp
next
  case (2 t)
  then have "list_all (\<lambda>c. \<not> isWhiteSpace c) t" by (simp add: goodToken_def)
  from collapseWs_nonwhite [OF this, of "[]"] show ?case by simp
next
  case (3 t u us)
  then have t: "list_all (\<lambda>c. \<not> isWhiteSpace c) t" and rest: "list_all goodToken (u # us)"
    by (simp_all add: goodToken_def [of t])
  from joinSpace_ends [OF rest] obtain d ds where j: "joinSpace (u # us) = d # ds" and d: "\<not> isWhiteSpace d"
    by (cases "joinSpace (u # us)") auto
  have "collapseWs (CHR '' '' # joinSpace (u # us)) = CHR '' '' # collapseWs (joinSpace (u # us))"
    by (simp add: j d)
  with "3.IH" [OF rest] show ?case
    by (simp add: collapseWs_nonwhite [OF t])
qed

lemma trim_id: "s \<noteq> [] \<Longrightarrow> \<not> isWhiteSpace (hd s) \<Longrightarrow> \<not> isWhiteSpace (last s) \<Longrightarrow> trim s = s"
proof -
  assume ne: "s \<noteq> []" and h: "\<not> isWhiteSpace (hd s)" and l: "\<not> isWhiteSpace (last s)"
  from ne h have a: "dropWhile isWhiteSpace s = s" by (cases s) simp_all
  from ne l have b: "dropWhile isWhiteSpace (rev s) = rev s"
    by (cases "rev s") (simp_all add: last_rev [symmetric] hd_rev)
  show ?thesis by (simp add: trim_def a b)
qed

lemma trim_joinSpace: "list_all goodToken ts \<Longrightarrow> trim (joinSpace ts) = joinSpace ts"
proof (cases ts)
  case Nil
  then show ?thesis by (simp add: trim_def)
next
  case (Cons u us)
  assume "list_all goodToken ts"
  with Cons joinSpace_ends [of u us] show ?thesis by (simp add: trim_id)
qed

subsection \<open>capitalisation\<close>

lemma length_capitalize [simp]: "length (capitalize pw s) = length s"
  by (induction s arbitrary: pw) simp_all

lemma capitalize_Nil_iff [simp]: "capitalize pw s = [] \<longleftrightarrow> s = []"
  by (cases s) simp_all

lemma capitalize_app_space:
  "capitalize pw (t @ CHR '' '' # r) = capitalize pw t @ CHR '' '' # capitalize False r"
  by (induction t arbitrary: pw) simp_all

lemma capitalize_joinSpace:
  "capitalize False (joinSpace ts) = joinSpace (map (capitalize False) ts)"
  by (induction ts rule: joinSpace.induct) (simp_all add: capitalize_app_space)

lemma capitalize_nonwhite:
  "list_all (\<lambda>c. \<not> isWhiteSpace c) (capitalize pw t) = list_all (\<lambda>c. \<not> isWhiteSpace c) t"
  by (induction t arbitrary: pw) simp_all

lemma goodToken_capitalize [simp]: "goodToken (capitalize pw t) = goodToken t"
  by (simp add: goodToken_def capitalize_nonwhite)

lemma toLowerCase_capitalize: "lowered s \<Longrightarrow> toLowerCase (capitalize pw s) = s"
  by (induction s arbitrary: pw) (simp_all add: lowered_def toLowerCase_def toLower_toUpper)

lemma capitalize_inj: "lowered s \<Longrightarrow> lowered t \<Longrightarrow> capitalize pw s = capitalize pw t \<Longrightarrow> s = t"
  by (metis toLowerCase_capitalize)

lemma hd_capitalize: "t \<noteq> [] \<Longrightarrow> \<not> isLowerAscii (hd (capitalize False t))"
  by (cases t) (auto dest: lower_is_word)

lemma capitalized_capitalize: "capitalized pw (capitalize pw s)"
  by (induction s arbitrary: pw) (auto dest: lower_is_word)

subsection \<open>lower case is kept by the deleting steps\<close>

lemma set_cutAtPipe: "set (cutAtPipe s) \<subseteq> set s"
  by (induction s) auto

lemma set_deleteMarked: "set (deleteMarked ms s) \<subseteq> set s"
  by (induction ms s rule: deleteMarked.induct) auto

lemma set_removeWord: "set (removeWord w pw k s) \<subseteq> set s"
  by (induction s arbitrary: pw k) auto

lemma set_removeSite: "set (removeSite RegExp dm s) \<subseteq> set s"
  by (auto simp: removeSite_def split: option.splits dest: set_deleteMarked [THEN subsetD])

lemma lowered_subset: "set t \<subseteq> set s \<Longrightarrow> lowered s \<Longrightarrow> lowered t"
  by (auto simp: lowered_def list_all_iff)

lemma lowered_foldl_removeWord: "lowered s \<Longrightarrow> lowered (foldl (\<lambda>t w. removeWord w False 0 t) s ws)"
  by (induction ws arbitrary: s) (auto intro: lowered_subset [OF set_removeWord])

lemma lowered_toLowerCase: "lowered (toLowerCase r)"
  by (simp add: lowered_def toLowerCase_def list_all_iff)

lemma lowered_replaceSeparators: "lowered s \<Longrightarrow> lowered (replaceSeparators s)"
  by (auto simp: lowered_def replaceSeparators_def list_all_iff)

lemma cleanTokens_props:
  "distinct (cleanTokens RegExp r d) \<and> list_all goodToken (cleanTokens RegExp r d)
     \<and> list_all lowered (cleanTokens RegExp r d)"
proof -
  let ?s = "replaceSeparators (removeBoilerplate (removeSite RegExp d (cutAtPipe (toLowerCase r))))"
  have low: "lowered ?s"
    unfolding removeBoilerplate_def
    by (intro lowered_replaceSeparators lowered_foldl_removeWord
          lowered_subset [OF set_removeSite] lowered_subset [OF set_cutAtPipe] lowered_toLowerCase)
  have sub: "set (cleanTokens RegExp r d) \<subseteq> set (splitWs ?s)"
    by (simp add: cleanTokens_def dedupe_distinct)
  have "\<And>t. t \<in> set (splitWs ?s) \<Longrightarrow> goodToken t \<and> lowered t"
    using low by (auto intro: splitWs_good lowered_subset [OF splitWs_chars])
  with sub show ?thesis
    by (auto simp: list_all_iff cleanTokens_def dedupe_distinct)
qed

lemma normalizeTitle_Some:
  assumes "normalizeTitle RegExp raw d = Some y"
  obtains r where "raw = Some r" and "r \<noteq> []"
    and "y = joinSpace (map (capitalize False) (cleanTokens RegExp r d))"
    and "3 \<le> length y"
proof -
  from assms obtain r where raw: "raw = Some r" and r: "r \<noteq> []"
    by (auto simp: normalizeTitle_def split: option.splits if_splits)
  have good: "list_all goodToken (cleanTokens RegExp r d)"
    using cleanTokens_props by blast
  have t: "trim (collapseWs (joinSpace (cleanTokens RegExp r d))) = joinSpace (cleanTokens RegExp r d)"
    by (simp add: collapseWs_joinSpace [OF good] trim_joinSpace [OF good])
  from assms raw r have "y = capitalize False (joinSpace (cleanTokens RegExp r d))" and "3 \<le> length y"
    by (auto simp: normalizeTitle_def t Let_def split: if_splits)
  with raw r that show thesis by (simp add: capitalize_joinSpace)
qed

lemma splitWs_output:
  "splitWs (joinSpace (map (capitalize False) (cleanTokens RegExp r d)))
     = map (capitalize False) (cleanTokens RegExp r d)"
proof -
  have "list_all goodToken (map (capitalize False) (cleanTokens RegExp r d))"
    using cleanTokens_props [of RegExp r d] by (simp add: list_all_iff)
  then show ?thesis by (rule splitWs_joinSpace)
qed

text \<open>
  C6 (amended). For every raw title and every domain, \<open>normalizeTitle\<close> returns \<open>null\<close>
  or a string of at least 3 code units whose white-space-delimited tokens are pairwise
  different and in which no token and no maximal run of \<open>[A-Za-z0-9_]\<close> (the words of the
  source's \<open>/\b\w/g\<close>) begins with a lower-case letter \<open>a\<close> to \<open>z\<close>. This holds for every
  regular-expression engine.
\<close>

theorem normalizeTitle_output:
  "normalizeTitle RegExp raw dm = None
   \<or> (\<exists>y. normalizeTitle RegExp raw dm = Some y
          \<and> 3 \<le> length y
          \<and> distinct (splitWs y)
          \<and> list_all (\<lambda>t. \<not> isLowerAscii (hd t)) (splitWs y)
          \<and> capitalized False y)"
proof (cases "normalizeTitle RegExp raw dm")
  case None
  then show ?thesis by simp
next
  case (Some y)
  then obtain r where y: "y = joinSpace (map (capitalize False) (cleanTokens RegExp r dm))"
    and len: "3 \<le> length y"
    by (rule normalizeTitle_Some)
  have props: "distinct (cleanTokens RegExp r dm)" "list_all goodToken (cleanTokens RegExp r dm)"
    "list_all lowered (cleanTokens RegExp r dm)"
    using cleanTokens_props by blast+
  have sp: "splitWs y = map (capitalize False) (cleanTokens RegExp r dm)"
    unfolding y by (rule splitWs_output)
  have "inj_on (capitalize False) (set (cleanTokens RegExp r dm))"
    using props(3) by (auto simp: inj_on_def list_all_iff intro: capitalize_inj)
  with props(1) have d: "distinct (splitWs y)"
    by (simp add: sp distinct_map)
  have h: "list_all (\<lambda>t. \<not> isLowerAscii (hd t)) (splitWs y)"
    using props(2) hd_capitalize by (auto simp: sp list_all_iff goodToken_def)
  have c: "capitalized False y"
    unfolding y capitalize_joinSpace [symmetric] by (rule capitalized_capitalize)
  from Some len d h c show ?thesis by simp
qed

text \<open>The claim as stated fails: a letter outside ASCII is not a \<open>\w\<close> code unit, so the
  first letter of \<open>233 lan\<close> (e acute, then \<open>lan\<close>) stays lower case and the \<open>l\<close> after it
  is capitalised instead.\<close>

theorem normalizeTitle_first_letter_counterexample:
  "normalizeTitle hostRegExp (Some (CHR 0xE9 # ''lan vital'')) ''example.com''
     = Some (CHR 0xE9 # ''Lan Vital'')
   \<and> \<not> wordsCapitalized (CHR 0xE9 # ''Lan Vital'')"
  by code_simp

subsection \<open>Running the normaliser on its own output\<close>

lemma cutAtPipe_id: "CHR ''|'' \<notin> set s \<Longrightarrow> cutAtPipe s = s"
  by (induction s) auto

lemma replaceSeparators_id: "list_all (\<lambda>c. \<not> isSeparator c) s \<Longrightarrow> replaceSeparators s = s"
  by (simp add: replaceSeparators_def list_all_iff map_idI)

lemma pipe_separator: "isSeparator (CHR ''|'')"
  by (simp add: isSeparator_def)

lemma space_not_separator: "\<not> isSeparator (CHR '' '')"
  by (simp add: isSeparator_def)

lemma replaceSeparators_free: "list_all (\<lambda>c. \<not> isSeparator c) (replaceSeparators s)"
  by (auto simp: replaceSeparators_def list_all_iff space_not_separator)

lemma set_joinSpace: "set (joinSpace ts) \<subseteq> insert (CHR '' '') (\<Union> (set ` set ts))"
  by (induction ts rule: joinSpace.induct) auto

lemma lowered_joinSpace: "list_all lowered ts \<Longrightarrow> lowered (joinSpace ts)"
  by (induction ts rule: joinSpace.induct) (simp_all add: lowered_def)

lemma cleanTokens_free: "t \<in> set (cleanTokens RegExp r d) \<Longrightarrow> list_all (\<lambda>c. \<not> isSeparator c) t"
proof -
  let ?s = "replaceSeparators (removeBoilerplate (removeSite RegExp d (cutAtPipe (toLowerCase r))))"
  assume "t \<in> set (cleanTokens RegExp r d)"
  then have "t \<in> set (splitWs ?s)" by (simp add: cleanTokens_def dedupe_distinct)
  then have "set t \<subseteq> set ?s" by (rule splitWs_chars)
  with replaceSeparators_free [of "removeBoilerplate (removeSite RegExp d (cutAtPipe (toLowerCase r)))"]
  show ?thesis by (auto simp: list_all_iff)
qed

lemma joined_free:
  "list_all (\<lambda>c. \<not> isSeparator c) (joinSpace (cleanTokens RegExp r d))"
  using set_joinSpace [of "cleanTokens RegExp r d"] cleanTokens_free [of _ RegExp r d]
  by (fastforce simp: list_all_iff space_not_separator)

lemma cleanTokens_again:
  assumes y: "y = joinSpace (map (capitalize False) (cleanTokens RegExp r d))"
    and site: "removeSite RegExp d (toLowerCase y) = toLowerCase y"
    and boil: "removeBoilerplate (toLowerCase y) = toLowerCase y"
  shows "cleanTokens RegExp y d = cleanTokens RegExp r d"
proof -
  let ?ts = "cleanTokens RegExp r d"
  have props: "distinct ?ts" "list_all goodToken ?ts" "list_all lowered ?ts"
    using cleanTokens_props by blast+
  have low: "toLowerCase y = joinSpace ?ts"
    unfolding y capitalize_joinSpace [symmetric]
    by (rule toLowerCase_capitalize) (rule lowered_joinSpace [OF props(3)])
  have free: "list_all (\<lambda>c. \<not> isSeparator c) (joinSpace ?ts)" by (rule joined_free)
  then have nopipe: "CHR ''|'' \<notin> set (joinSpace ?ts)"
    using pipe_separator by (auto simp: list_all_iff)
  have "cleanTokens RegExp y d
      = dedupe [] (splitWs (replaceSeparators (removeBoilerplate
          (removeSite RegExp d (cutAtPipe (joinSpace ?ts))))))"
    by (simp add: cleanTokens_def low)
  also have "\<dots> = dedupe [] (splitWs (replaceSeparators (removeBoilerplate
          (removeSite RegExp d (joinSpace ?ts)))))"
    by (simp add: cutAtPipe_id [OF nopipe])
  also have "\<dots> = dedupe [] (splitWs (replaceSeparators (joinSpace ?ts)))"
    using site boil by (simp add: low)
  also have "\<dots> = dedupe [] (splitWs (joinSpace ?ts))"
    by (simp add: replaceSeparators_id [OF free])
  also have "\<dots> = dedupe [] ?ts"
    by (simp add: splitWs_joinSpace [OF props(2)])
  also have "\<dots> = ?ts"
    by (rule dedupe_id) (simp_all add: props(1))
  finally show ?thesis .
qed

text \<open>
  C8 (amended). Let \<open>normalizeTitle(x, d)\<close> be a title \<open>y\<close>. When neither the site-label
  step nor the boilerplate step changes the lower-cased \<open>y\<close>, running \<open>normalizeTitle\<close> on
  \<open>y\<close> with the same domain returns \<open>y\<close> itself: it is not null and its capitalisation is
  unchanged. (When one of the two steps still fires on \<open>y\<close>, the second run can shrink the
  title, down to null: see the counterexample below.)
\<close>

theorem normalizeTitle_stable_when_clean:
  assumes first: "normalizeTitle RegExp x d = Some y"
    and site: "removeSite RegExp d (toLowerCase y) = toLowerCase y"
    and boil: "removeBoilerplate (toLowerCase y) = toLowerCase y"
  shows "normalizeTitle RegExp (Some y) d = Some y"
proof -
  from first obtain r where x: "x = Some r" and r: "r \<noteq> []"
    and y: "y = joinSpace (map (capitalize False) (cleanTokens RegExp r d))"
    and len: "3 \<le> length y"
    by (rule normalizeTitle_Some)
  from len have ne: "y \<noteq> []" by auto
  have same: "cleanTokens RegExp y d = cleanTokens RegExp r d"
    by (rule cleanTokens_again [OF y site boil])
  have "normalizeTitle RegExp (Some y) d = normalizeTitle RegExp (Some r) d"
    using ne r by (simp add: normalizeTitle_def same)
  with first x show ?thesis by simp
qed

theorem normalizeTitle_stable_when_clean_witness:
  "normalizeTitle hostRegExp (Some ''Honda City | Price, Images'') ''www.cardekho.com'' = Some ''Honda City''
   \<and> normalizeTitle hostRegExp (Some ''Honda City'') ''www.cardekho.com'' = Some ''Honda City''"
proof -
  have a: "normalizeTitle hostRegExp (Some ''Honda City | Price, Images'') ''www.cardekho.com'' = Some ''Honda City''"
    by code_simp
  have b: "removeSite hostRegExp ''www.cardekho.com'' (toLowerCase ''Honda City'') = toLowerCase ''Honda City''"
    by code_simp
  have c: "removeBoilerplate (toLowerCase ''Honda City'') = toLowerCase ''Honda City''"
    by code_simp
  from normalizeTitle_stable_when_clean [OF a b c] a show ?thesis by simp
qed

text \<open>The claim as stated fails: \<open>'On/Road'\<close> normalises to \<open>'On Road'\<close>, the separator
  having become a space only after the boilerplate words were removed; on the second run
  \<open>on road\<close> is a boilerplate word, nothing is left, and the result is null.\<close>

theorem normalizeTitle_rerun_counterexample:
  "normalizeTitle hostRegExp (Some ''On/Road'') ''example.com'' = Some ''On Road''
   \<and> normalizeTitle hostRegExp (normalizeTitle hostRegExp (Some ''On/Road'') ''example.com'') ''example.com'' = None"
  by code_simp

text \<open>
  C7. The claim is that the domain's primary label is stripped from the title only as a
  whole-word token. Line 49 builds \<open>new RegExp(site, 'g')\<close> with no \<open>\b\<close> around the label
  (the boilerplate loop of line 55 and \<open>extractBestTitle\<close>, line 268, do put \<open>\b\<close> on both
  sides), so every occurrence goes, also inside a longer word: for the domain \<open>car.com\<close>
  the title \<open>Carpet cleaning tips\<close> loses the \<open>car\<close> of \<open>carpet\<close>.
\<close>

theorem normalizeTitle_site_inside_word:
  "normalizeTitle hostRegExp (Some ''Carpet cleaning tips'') ''car.com'' = Some ''Pet Cleaning Tips''"
  by code_simp

text \<open>The other half of C7 holds: when the construction of the regular expression fails,
  the step is skipped and the title is left as it is.\<close>

lemma removeSite_failure: "RegExp (siteLabel d) = None \<Longrightarrow> removeSite RegExp d t = t"
  by (simp add: removeSite_def)

section \<open>Properties of the image validator\<close>

lemma loadImageStep_settled:
  "settled st \<Longrightarrow> settled (loadImageStep mw mh st e) \<and> outcome (loadImageStep mw mh st e) = outcome st"
  by (cases e) simp_all

lemma loadImage_settled_stays:
  "settled st \<Longrightarrow> outcome (foldl (loadImageStep mw mh) st es) = outcome st"
proof (induction es arbitrary: st)
  case Nil
  then show ?case by simp
next
  case (Cons e es)
  from loadImageStep_settled [OF Cons.prems, of mw mh e]
  have s: "settled (loadImageStep mw mh st e)" and o: "outcome (loadImageStep mw mh st e) = outcome st"
    by simp_all
  from Cons.IH [OF s] o show ?case by simp
qed

lemma loadImage_first_step:
  "settled (loadImageStep mw mh loadImageStart e)
   \<and> outcome (loadImageStep mw mh loadImageStart e) =
       (case e of TimerFired \<Rightarrow> Resolved False | OnError \<Rightarrow> Resolved False
        | OnLoad w h \<Rightarrow> Resolved (mw \<le> w \<and> mh \<le> h))"
  by (cases e) (simp_all add: loadImageStart_def resolve_def)

lemma runCallbacks_first:
  "runCallbacks minWidth minHeight events =
     (case events of
        [] \<Rightarrow> Unsettled
      | TimerFired # rest \<Rightarrow> Resolved False
      | OnError # rest \<Rightarrow> Resolved False
      | OnLoad w h # rest \<Rightarrow> Resolved (minWidth \<le> w \<and> minHeight \<le> h))"
proof (cases events)
  case Nil
  then show ?thesis by (simp add: runCallbacks_def loadImageStart_def)
next
  case (Cons e rest)
  from loadImage_first_step [of minWidth minHeight e]
  have s: "settled (loadImageStep minWidth minHeight loadImageStart e)"
    and o: "outcome (loadImageStep minWidth minHeight loadImageStart e) =
       (case e of TimerFired \<Rightarrow> Resolved False | OnError \<Rightarrow> Resolved False
        | OnLoad w h \<Rightarrow> Resolved (minWidth \<le> w \<and> minHeight \<le> h))"
    by simp_all
  from loadImage_settled_stays [OF s, of minWidth minHeight rest] o Cons
  show ?thesis by (simp add: runCallbacks_def split: image_event.splits)
qed

lemma runCallbacks_never_rejects: "runCallbacks minWidth minHeight events \<noteq> RejectedPromise"
  by (simp add: runCallbacks_first split: list.splits image_event.splits)

text \<open>
  C9. The image validator never throws or rejects. For every candidate URL, deadline and
  minimum dimensions, and whatever becomes of the image, the promise resolves: to \<open>true\<close>
  exactly when the image loads strictly before the deadline with both natural dimensions
  at least the minimums, and to \<open>false\<close> on every other path (the deadline elapsed first,
  the load failed, a dimension is below its minimum). More generally, whatever callbacks
  the browser runs and in whatever order, the first one settles the promise, and it is
  never a rejection.
\<close>

theorem loadImageWithTimeout_resolves:
  "loadImageWithTimeout network src timeout minWidth minHeight =
     Resolved (case network src of
                 LoadsAt t w h \<Rightarrow> t < timeout \<and> minWidth \<le> w \<and> minHeight \<le> h
               | FailsAt t \<Rightarrow> False
               | NeverSettles \<Rightarrow> False)
   \<and> runCallbacks minWidth minHeight events =
       (case events of
          [] \<Rightarrow> Unsettled
        | TimerFired # rest \<Rightarrow> Resolved False
        | OnError # rest \<Rightarrow> Resolved False
        | OnLoad w h # rest \<Rightarrow> Resolved (minWidth \<le> w \<and> minHeight \<le> h))"
proof
  show "loadImageWithTimeout network src timeout minWidth minHeight =
     Resolved (case network src of
                 LoadsAt t w h \<Rightarrow> t < timeout \<and> minWidth \<le> w \<and> minHeight \<le> h
               | FailsAt t \<Rightarrow> False
               | NeverSettles \<Rightarrow> False)"
    by (cases "network src") (simp_all add: loadImageWithTimeout_def runCallbacks_first)
  show "runCallbacks minWidth minHeight events =
       (case events of
          [] \<Rightarrow> Unsettled
        | TimerFired # rest \<Rightarrow> Resolved False
        | OnError # rest \<Rightarrow> Resolved False
        | OnLoad w h # rest \<Rightarrow> Resolved (minWidth \<le> w \<and> minHeight \<le> h))"
    by (rule runCallbacks_first)
qed

section \<open>Properties of the title candidates\<close>

text \<open>The client's extractor: both reads of \<open>METADATA_PROXY\<close> throw, the second inside the
  \<open>try\<close> whose \<open>catch\<close> returns \<open>null\<close>, so \<open>fetchPageMetadata\<close> gives \<open>null\<close> for every
  page and selects no title candidate at all.\<close>

lemma fetchPageMetadata_null: "fetchPageMetadata direct fallback u = None"
  by (simp add: fetchPageMetadata_def readName_def moduleScope_def globalNames_def)

text \<open>The claimed order (\<open>og:title\<close>, \<open>twitter:title\<close>, \<open>title\<close>, then the meta description
  as the last fallback, in every path) fails in the proxy server: for a page that has a meta
  description and none of the three title tags, the server answers \<open>null\<close>.\<close>

theorem title_priority_counterexample:
  "titleProxyServer \<lparr>ogTitle = None, twitterTitle = None, titleText = None,
       metaDescription = Some ''A quiet page'', ogDescription = None\<rparr> = None
   \<and> titleBySpecOrder \<lparr>ogTitle = None, twitterTitle = None, titleText = None,
       metaDescription = Some ''A quiet page'', ogDescription = None\<rparr> = Some ''A quiet page''"
  by (simp add: titleProxyServer_def titleBySpecOrder_def jsOr_def truthy_def)

text \<open>
  C5 (amended). The proxy server selects the title in the claimed order as far as the
  three title tags go, and has no description fallback: when \<open>og:title\<close>,
  \<open>twitter:title\<close> or the \<open>title\<close> element is non-empty its choice is the one of the
  claimed order, and when none is it answers \<open>null\<close>, whatever the meta description.
\<close>

theorem title_priority_server:
  "titleProxyServer doc =
     (if truthy (ogTitle doc) \<or> truthy (twitterTitle doc) \<or> truthy (titleText doc)
      then titleBySpecOrder doc else None)"
  by (simp add: titleProxyServer_def titleBySpecOrder_def jsOr_def truthy_def)

lemma titleProxyServer_first_truthy:
  "titleProxyServer doc = firstTruthy [ogTitle doc, twitterTitle doc, titleText doc, None]"
  by (simp add: titleProxyServer_def jsOr_def)

section \<open>Properties of the enrichment orchestrator\<close>

text \<open>\<open>data\<close> is not in scope at line 355 and \<open>attempts\<close> is not in scope at line 412:
  whatever the rest of the body and of the handler would do, every call is rejected with the
  \<open>ReferenceError\<close> of the handler and has performed no effect.\<close>

lemma readName_data:
  "readName (enrichTryNames @ enrichParams @ moduleScope @ globalNames) ''data''
     = Inl (ReferenceError ''data'')"
  by (simp add: readName_def enrichTryNames_def enrichParams_def moduleScope_def globalNames_def)

lemma readName_attempts:
  "readName (enrichCatchNames @ enrichParams @ moduleScope @ globalNames) ''attempts''
     = Inl (ReferenceError ''attempts'')"
  by (simp add: readName_def enrichCatchNames_def enrichParams_def moduleScope_def globalNames_def)

lemma enrichUrlMetadata_rejects:
  "enrichUrlMetadata cache rest handler i u = ([], Rejected (ReferenceError ''attempts''))"
  by (simp add: enrichUrlMetadata_def enrichTryBlock_def enrichCatchClause_def
        readName_data readName_attempts)


text \<open>
  C4. The claim is that for a URL with an entry in the cache \<open>enrichUrlMetadata\<close> makes
  no fetch, sets \<open>metaStatus\<close> to \<open>done\<close> and merges the cached title and image under the
  guards. The run makes no fetch, but it throws at line 355, before the cache test of line
  358: for the pending item of the cached page the promise is rejected, \<open>metaStatus\<close> is
  still \<open>pending\<close>, and the title and the favicon are still in place.
\<close>

theorem cache_hit_not_applied:
  "hondaCache hondaUrl = Some hondaEntry
   \<and> snd (enrichUrlMetadata hondaCache rest handler ''id1'' hondaUrl)
       = Rejected (ReferenceError ''attempts'')
   \<and> filter isFetch (fst (enrichUrlMetadata hondaCache rest handler ''id1'' hondaUrl)) = []
   \<and> map metaStatus
         (applyEffects (fst (enrichUrlMetadata hondaCache rest handler ''id1'' hondaUrl)) [hondaItem])
       = [Pending]
   \<and> applyEffects (fst (enrichUrlMetadata hondaCache rest handler ''id1'' hondaUrl)) [hondaItem]
       = [hondaItem]"
  by (simp add: enrichUrlMetadata_rejects hondaCache_def hondaItem_def)

text \<open>
  C3. The claim is that a failed resolution sets \<open>metaStatus\<close> to \<open>failed\<close>, increments
  \<open>metaAttempts\<close> and arms a retry after 2000 ms times the new count while that count is
  below 3. The failure handler of lines 411 to 415 reads \<open>attempts\<close>, which is declared in
  the \<open>try\<close> block, and throws: for the pending item of a page that cannot be resolved the
  promise is rejected, no retry timer is armed, \<open>metaStatus\<close> is still \<open>pending\<close> and
  \<open>metaAttempts\<close> is still 0.
\<close>

theorem failure_not_recorded:
  "snd (enrichUrlMetadata noCache rest handler ''id1'' hondaUrl)
       = Rejected (ReferenceError ''attempts'')
   \<and> scheduledRetry (fst (enrichUrlMetadata noCache rest handler ''id1'' hondaUrl)) = None
   \<and> map metaStatus
         (applyEffects (fst (enrichUrlMetadata noCache rest handler ''id1'' hondaUrl)) [hondaItem])
       = [Pending]
   \<and> map metaAttempts
         (applyEffects (fst (enrichUrlMetadata noCache rest handler ''id1'' hondaUrl)) [hondaItem])
       = [0]"
  by (simp add: enrichUrlMetadata_rejects hondaItem_def)

section \<open>Properties of addItem\<close>

lemma find_in_bucket:
  "find (\<lambda>it. url it = c \<and> bucketId it = b) (filter (\<lambda>it. bucketId it = b) data)
     = find (\<lambda>it. url it = c \<and> bucketId it = b) data"
  by (induction data) simp_all

lemma find_absent:
  "\<forall>it\<in>set data. \<not> (url it = c \<and> bucketId it = b) \<Longrightarrow>
   find (\<lambda>it. url it = c \<and> bucketId it = b) data = None"
  by (simp add: find_None_iff)

text \<open>
  C10. Duplicate detection looks only at the target bucket. When no item of the target
  bucket has the URL, \<open>addItem\<close> behaves as if the other buckets were empty, and it
  creates a new item with the new id in the target bucket: whatever the other buckets
  hold, however recently it was saved there, and whether or not the URL is in the
  pending-set.
\<close>

theorem addItem_bucket_scoped:
  assumes "\<forall>it\<in>set data. \<not> (url it = content \<and> bucketId it = targetBucketId)"
  shows "addItem RegExp URL data pendingUrls now newId content targetBucketId type initialTitle initialImage
           = addItem RegExp URL (filter (\<lambda>it. bucketId it = targetBucketId) data) pendingUrls now newId
               content targetBucketId type initialTitle initialImage
       \<and> returnedId (addItem RegExp URL data pendingUrls now newId content targetBucketId type
                        initialTitle initialImage) = newId
       \<and> (\<exists>it. inserted (addItem RegExp URL data pendingUrls now newId content targetBucketId type
                             initialTitle initialImage) = Some it
              \<and> itemId it = newId \<and> bucketId it = targetBucketId
              \<and> url it = (if type = ''url'' \<or> startsWith content ''http'' then content else []))"
proof -
  have a: "find (\<lambda>it. url it = content \<and> bucketId it = targetBucketId) data = None"
    by (rule find_absent [OF assms])
  show ?thesis
    by (simp add: addItem_def find_in_bucket a Let_def)
qed

theorem addItem_bucket_scoped_witness:
  "returnedId (addItem hostRegExp parseExample [otherBucketItem] {hondaUrl} 9500 ''id2'' hondaUrl ''b2''
                 ''url'' None None) = ''id2''
   \<and> map bucketId (commitAdd (addItem hostRegExp parseExample [otherBucketItem] {hondaUrl} 9500 ''id2''
                                hondaUrl ''b2'' ''url'' None None) [otherBucketItem]) = [''b2'', ''b1'']"
proof -
  have h: "\<forall>it\<in>set [otherBucketItem]. \<not> (url it = hondaUrl \<and> bucketId it = ''b2'')"
    by (simp add: otherBucketItem_def hondaItem_def)
  from addItem_bucket_scoped [OF h, of hostRegExp parseExample "{hondaUrl}" 9500 "''id2''" "''url''" None None]
  show ?thesis
    by (auto simp: commitAdd_def otherBucketItem_def hondaItem_def)
qed

text \<open>Two calls, the second of which reads a collection that holds the first item.\<close>

lemma addItem_second_call_sees_first:
  assumes isUrl: "type = ''url'' \<or> startsWith content ''http''"
    and fresh: "\<forall>it\<in>set items. \<not> (url it = content \<and> bucketId it = b)"
    and window: "now2 - now1 < 10000"
    and first: "r1 = addItem RegExp URL items pendingUrls now1 id1 content b type t1 i1"
    and second: "r2 = addItem RegExp URL (commitAdd r1 items) pending2 now2 id2 content b type t2 i2"
  shows "inserted r2 = None \<and> returnedId r2 = returnedId r1
       \<and> map itemId (filter (\<lambda>it. url it = content \<and> bucketId it = b)
                       (commitAdd r2 (commitAdd r1 items))) = [id1]"
proof -
  have a: "find (\<lambda>it. url it = content \<and> bucketId it = b) items = None"
    by (rule find_absent [OF fresh])
  from fresh have f: "filter (\<lambda>it. url it = content \<and> bucketId it = b) items = []"
    by (simp add: filter_empty_conv)
  obtain it where ins: "inserted r1 = Some it" and it: "itemId it = id1" "bucketId it = b"
    "url it = content" "createdAt it = now1" and ret: "returnedId r1 = id1"
    using isUrl by (auto simp: first addItem_def a Let_def)
  have c1: "commitAdd r1 items = it # items" by (simp add: commitAdd_def ins)
  have found: "find (\<lambda>it. url it = content \<and> bucketId it = b) (commitAdd r1 items) = Some it"
    by (simp add: c1 it)
  have r2: "inserted r2 = None \<and> returnedId r2 = id1"
    using isUrl window by (auto simp: second addItem_def found it Let_def)
  then have c2: "commitAdd r2 (commitAdd r1 items) = it # items" by (simp add: commitAdd_def ins)
  from r2 ret show ?thesis by (simp add: c2 it f)
qed

text \<open>
  C2. The claim is that two near-simultaneous \<open>addItem\<close> calls for one URL into one
  bucket persist exactly one item. The pending-set is there "to prevent race duplicates"
  (lines 597 and 640), but line 631 returns only when the first item is already in
  \<open>data\<close>; for two calls that read the same \<open>data\<close> (the second is made before a render
  has brought the first item into it) the lookup of line 630 finds nothing, the code
  falls through, and a second item is created. The lemma above is the other case.
\<close>

theorem addItem_race_creates_duplicate:
  "map itemId
     (filter (\<lambda>it. url it = hondaUrl \<and> bucketId it = ''b1'')
        (commitAdd (addItem hostRegExp parseExample []
                      (pendingAfter (addItem hostRegExp parseExample [] {} 1000 ''id1'' hondaUrl ''b1''
                                       ''url'' None None))
                      1500 ''id2'' hondaUrl ''b1'' ''url'' None None)
           (commitAdd (addItem hostRegExp parseExample [] {} 1000 ''id1'' hondaUrl ''b1''
                         ''url'' None None) [])))
   = [''id2'', ''id1'']"
  by code_simp

end
